theory Spec2Isabelle
  imports Main "HOL-Library.Word"
begin

unbundle bit_operations_syntax

section \<open>Transposition table entries (tt.h)\<close>

text \<open>
  The enumerations \<open>Value\<close>, \<open>Bound\<close>, \<open>Depth\<close> and \<open>Move\<close> of types.h are used by
  tt.h as C integers: they are cast to fixed-width fields, combined with \<open>&\<close> and
  compared with \<open><\<close>. They are 32-bit two's complement values here, as \<open>int\<close> is;
  \<open>Key\<close> is the 64-bit hash key and \<open>size_t\<close> is 64 bits wide.
\<close>

type_synonym Key = "64 word"
type_synonym Value = "32 word"
type_synonym Bound = "32 word"
type_synonym Depth = "32 word"
type_synonym Move = "32 word"

text \<open>
  Modelled from the spec: the enumerator \<open>BOUND_NONE\<close> of types.h, which is not among
  the sources. The bound flags are a bitmask of UPPER and LOWER, and NONE is the empty
  mask.
\<close>

definition BOUND_NONE :: Bound where
  "BOUND_NONE = 0"

text \<open>
  Modelled from the spec: the enumerator \<open>BOUND_UPPER\<close> of types.h, one of the two
  flags of the bitmask; tt.h keeps the flags in the two "value type" bits of its layout.
\<close>

definition BOUND_UPPER :: Bound where
  "BOUND_UPPER = 1"

text \<open>
  Modelled from the spec: the enumerator \<open>BOUND_LOWER\<close> of types.h, the other flag.
\<close>

definition BOUND_LOWER :: Bound where
  "BOUND_LOWER = 2"

text \<open>
  The other enumerators of types.h that tt.h uses are parameters of the operations: the
  sentinels \<open>VALUE_NONE\<close> and \<open>DEPTH_NONE\<close>, whose numbers are given nowhere, and
  \<open>BOUND_EXACT\<close>. The specification has EXACT stand for both flags; \<open>update\<close>
  compares the stored flags with it and then stores \<open>BOUND_UPPER | BOUND_LOWER\<close>
  ("Drop 'EXACT' flag"), which changes the entry only if \<open>BOUND_EXACT\<close> has a further
  bit. Both readings are covered: the theorems assume at most that it includes the two
  flags.
\<close>

record enumerators =
  VALUE_NONE :: Value
  DEPTH_NONE :: Depth
  BOUND_EXACT :: Bound

definition exact_has_both :: "enumerators \<Rightarrow> bool" where
  "exact_has_both t \<longleftrightarrow>
     BOUND_EXACT t AND BOUND_UPPER \<noteq> 0 \<and> BOUND_EXACT t AND BOUND_LOWER \<noteq> 0"

record TTEntry =
  key32 :: "32 word"
  move16 :: "16 word"
  bound :: "8 word"
  generation8 :: "8 word"
  valueLower :: "16 word"
  depthLower :: "16 word"
  valueUpper :: "16 word"
  depthUpper :: "16 word"

text \<open>\<open>TTEntry::save\<close>: every field is overwritten; the casts truncate.\<close>

definition save ::
  "enumerators \<Rightarrow> TTEntry \<Rightarrow> 32 word \<Rightarrow> Value \<Rightarrow> Bound \<Rightarrow> Depth \<Rightarrow> Move \<Rightarrow> 32 word \<Rightarrow> TTEntry"
where
  "save t e k v b d m g =
     e\<lparr> key32 := k,
        move16 := ucast m,
        bound := ucast b,
        generation8 := ucast g,
        valueUpper := ucast (if b AND BOUND_UPPER \<noteq> 0 then v else VALUE_NONE t),
        depthUpper := ucast (if b AND BOUND_UPPER \<noteq> 0 then d else DEPTH_NONE t),
        valueLower := ucast (if b AND BOUND_LOWER \<noteq> 0 then v else VALUE_NONE t),
        depthLower := ucast (if b AND BOUND_LOWER \<noteq> 0 then d else DEPTH_NONE t) \<rparr>"

text \<open>
  \<open>TTEntry::update\<close>, statement by statement. The 8-bit \<open>bound\<close> and the 16-bit
  values are promoted to \<open>int\<close> before \<open>==\<close>, \<open>&\<close> and \<open><\<close>: zero extension for
  \<open>uint8_t\<close>, the signed reading \<open>sint\<close> for \<open>int16_t\<close>. The comparisons use the
  argument \<open>v\<close> itself, not its truncation.
\<close>

definition drop_exact :: "enumerators \<Rightarrow> TTEntry \<Rightarrow> TTEntry" where
  "drop_exact t e =
     (if (ucast (bound e) :: 32 word) = BOUND_EXACT t
      then e\<lparr> bound := ucast (BOUND_UPPER OR BOUND_LOWER) \<rparr> else e)"

definition update_upper :: "enumerators \<Rightarrow> TTEntry \<Rightarrow> Value \<Rightarrow> Bound \<Rightarrow> Depth \<Rightarrow> TTEntry" where
  "update_upper t e v b d =
     (if b AND BOUND_UPPER \<noteq> 0 then
        (let e' = e\<lparr> valueUpper := ucast v, depthUpper := ucast d \<rparr> in
         if (ucast (bound e') :: 32 word) AND BOUND_LOWER \<noteq> 0 \<and> sint v < sint (valueLower e')
         then e'\<lparr> bound := bound e' XOR ucast BOUND_LOWER,
                  valueLower := ucast (VALUE_NONE t),
                  depthLower := ucast (DEPTH_NONE t) \<rparr>
         else e')
      else e)"

definition update_lower :: "enumerators \<Rightarrow> TTEntry \<Rightarrow> Value \<Rightarrow> Bound \<Rightarrow> Depth \<Rightarrow> TTEntry" where
  "update_lower t e v b d =
     (if b AND BOUND_LOWER \<noteq> 0 then
        (let e' = e\<lparr> valueLower := ucast v, depthLower := ucast d \<rparr> in
         if (ucast (bound e') :: 32 word) AND BOUND_UPPER \<noteq> 0 \<and> sint v > sint (valueUpper e')
         then e'\<lparr> bound := bound e' XOR ucast BOUND_UPPER,
                  valueUpper := ucast (VALUE_NONE t),
                  depthUpper := ucast (DEPTH_NONE t) \<rparr>
         else e')
      else e)"

definition update ::
  "enumerators \<Rightarrow> TTEntry \<Rightarrow> Value \<Rightarrow> Bound \<Rightarrow> Depth \<Rightarrow> Move \<Rightarrow> 32 word \<Rightarrow> TTEntry"
where
  "update t e v b d m g =
     (let e1 = e\<lparr> move16 := ucast m, generation8 := ucast g \<rparr>;
          e2 = drop_exact t e1;
          e3 = update_upper t e2 v b d;
          e4 = update_lower t e3 v b d
      in e4\<lparr> bound := bound e4 OR ucast b \<rparr>)"

definition set_generation :: "TTEntry \<Rightarrow> 32 word \<Rightarrow> TTEntry" where
  "set_generation e g = e\<lparr> generation8 := ucast g \<rparr>"

text \<open>The read accessors; \<open>value\<close> and \<open>type\<close> are renamed.\<close>

definition key :: "TTEntry \<Rightarrow> 32 word" where
  "key e = key32 e"

definition depth :: "TTEntry \<Rightarrow> Depth" where
  "depth e = scast (depthLower e)"

definition depth_upper :: "TTEntry \<Rightarrow> Depth" where
  "depth_upper e = scast (depthUpper e)"

definition move :: "TTEntry \<Rightarrow> Move" where
  "move e = ucast (move16 e)"

definition value_lower :: "TTEntry \<Rightarrow> Value" where
  "value_lower e = scast (valueLower e)"

definition value_upper :: "TTEntry \<Rightarrow> Value" where
  "value_upper e = scast (valueUpper e)"

definition type_of_entry :: "TTEntry \<Rightarrow> Bound" where
  "type_of_entry e = ucast (bound e)"

definition generation :: "TTEntry \<Rightarrow> 32 word" where
  "generation e = ucast (generation8 e)"

text \<open>
  The tests \<open>bound & BOUND_UPPER\<close> and \<open>bound & BOUND_LOWER\<close> that \<open>update\<close> makes
  on the stored flags, as predicates of an entry.
\<close>

definition has_upper :: "TTEntry \<Rightarrow> bool" where
  "has_upper e \<longleftrightarrow> (ucast (bound e) :: 32 word) AND BOUND_UPPER \<noteq> 0"

definition has_lower :: "TTEntry \<Rightarrow> bool" where
  "has_lower e \<longleftrightarrow> (ucast (bound e) :: 32 word) AND BOUND_LOWER \<noteq> 0"

text \<open>A zeroed entry, as \<open>clear\<close> leaves every slot.\<close>

definition empty_entry :: TTEntry where
  "empty_entry =
     \<lparr> key32 = 0, move16 = 0, bound = 0, generation8 = 0,
       valueLower = 0, depthLower = 0, valueUpper = 0, depthUpper = 0 \<rparr>"

text \<open>
  The invariant of the record: a pair whose flag is clear holds the sentinels. It is
  stated on the stored 16-bit fields, which hold the truncated sentinels.
\<close>

definition pair_invariant :: "enumerators \<Rightarrow> TTEntry \<Rightarrow> bool" where
  "pair_invariant t e \<longleftrightarrow>
     (\<not> has_upper e \<longrightarrow>
        valueUpper e = ucast (VALUE_NONE t) \<and> depthUpper e = ucast (DEPTH_NONE t)) \<and>
     (\<not> has_lower e \<longrightarrow>
        valueLower e = ucast (VALUE_NONE t) \<and> depthLower e = ucast (DEPTH_NONE t))"

text \<open>Sequences of calls of \<open>save\<close> and \<open>update\<close> on one entry.\<close>

datatype operation =
    Initialize "32 word" Value Bound Depth Move "32 word"
  | Merge Value Bound Depth Move "32 word"

fun apply_operation :: "enumerators \<Rightarrow> TTEntry \<Rightarrow> operation \<Rightarrow> TTEntry" where
  "apply_operation t e (Initialize k v b d m g) = save t e k v b d m g"
| "apply_operation t e (Merge v b d m g) = update t e v b d m g"

definition apply_operations :: "enumerators \<Rightarrow> TTEntry \<Rightarrow> operation list \<Rightarrow> TTEntry" where
  "apply_operations t e ops = foldl (apply_operation t) e ops"

section \<open>The table (tt.h)\<close>

definition ClusterSize :: nat where
  "ClusterSize = 4"

record TTCluster =
  data :: "TTEntry list"

text \<open>
  \<open>entries\<close> points to an array of \<open>size\<close> clusters; the array is a list here and
  the field \<open>size\<close> is \<open>size_tt\<close>, the field \<open>generation\<close> is \<open>generation_tt\<close>.
\<close>

record TranspositionTable =
  size_tt :: "64 word"
  entries :: "TTCluster list"
  generation_tt :: "8 word"

text \<open>
  \<open>TranspositionTable::first_entry\<close> returns the address of \<open>entries[i].data\<close>; the
  model returns the index \<open>i\<close>. The key is cast to \<open>uint32_t\<close> first and converted
  back to \<open>size_t\<close> (zero extension) for the \<open>&\<close>.
\<close>

definition first_entry :: "TranspositionTable \<Rightarrow> Key \<Rightarrow> 64 word" where
  "first_entry tt posKey = (ucast (ucast posKey :: 32 word) :: 64 word) AND (size_tt tt - 1)"

text \<open>
  \<open>TranspositionTable::refresh\<close>: the 8-bit generation of the table is passed as the
  \<open>int\<close> argument of \<open>set_generation\<close>.
\<close>

definition refresh :: "TranspositionTable \<Rightarrow> TTEntry \<Rightarrow> TTEntry" where
  "refresh tt tte = set_generation tte (ucast (generation_tt tt))"

text \<open>
  Modelled from the spec: the generation distance of a record from the current epoch,
  counted modulo 256 (no function of tt.h computes it).
\<close>

definition generation_distance :: "8 word \<Rightarrow> TTEntry \<Rightarrow> 8 word" where
  "generation_distance cur e = cur - generation8 e"

section \<open>Entries used as concrete inputs\<close>

text \<open>
  Sample enumerators: the sentinels 30002 and -254, and EXACT as the two flags.
\<close>

definition sample_enumerators :: enumerators where
  "sample_enumerators = \<lparr> VALUE_NONE = 30002, DEPTH_NONE = - 254, BOUND_EXACT = 3 \<rparr>"

text \<open>
  A LOWER-only entry (value 50, depth 10) and an UPPER-only entry (value 30, depth 8),
  with those sentinels in the pair that is absent.
\<close>

definition lower_50_10 :: TTEntry where
  "lower_50_10 =
     \<lparr> key32 = 0x1234, move16 = 1, bound = 2, generation8 = 1,
       valueLower = 50, depthLower = 10, valueUpper = 30002, depthUpper = 65282 \<rparr>"

definition upper_30_8 :: TTEntry where
  "upper_30_8 =
     \<lparr> key32 = 0x1234, move16 = 1, bound = 1, generation8 = 1,
       valueLower = 30002, depthLower = 65282, valueUpper = 30, depthUpper = 8 \<rparr>"

text \<open>
  The scenario of the specification: \<open>save\<close> of a LOWER bound (50, depth 10) on a zeroed
  entry, then \<open>update\<close> with an UPPER bound (30, depth 8).
\<close>

definition scenario_entry :: TTEntry where
  "scenario_entry =
     update sample_enumerators
       (save sample_enumerators empty_entry 0x1234 50 BOUND_LOWER 10 1 1)
       30 BOUND_UPPER 8 2 2"

text \<open>
  A cluster of \<open>ClusterSize\<close> zeroed entries, a table of four such clusters and one of
  \<open>2 ^ 33\<close> of them.
\<close>

definition zero_cluster :: "TTEntry list" where
  "zero_cluster = [empty_entry, empty_entry, empty_entry, empty_entry]"

definition table_4 :: TranspositionTable where
  "table_4 =
     \<lparr> size_tt = 4,
       entries = [\<lparr> data = zero_cluster \<rparr>, \<lparr> data = zero_cluster \<rparr>,
                  \<lparr> data = zero_cluster \<rparr>, \<lparr> data = zero_cluster \<rparr>],
       generation_tt = 0 \<rparr>"

definition table_2_33 :: TranspositionTable where
  "table_2_33 =
     \<lparr> size_tt = 2 ^ 33,
       entries = replicate (2 ^ 33) \<lparr> data = zero_cluster \<rparr>,
       generation_tt = 0 \<rparr>"

section \<open>Storing into a cluster\<close>

text \<open>
  \<open>TranspositionTable::store\<close> is declared in tt.h and its body is not among the
  sources; the definitions of this section follow the specification. It has \<open>store\<close>
  scan the cluster of the key for a record whose fingerprint (the low 32 bits of the key)
  matches, to which \<open>update\<close> is applied in place; else for a record whose fingerprint
  is zero, which is written with \<open>save\<close>; else it writes with \<open>save\<close> the record
  with the highest eviction score, ties broken by the lowest depth.
\<close>

text \<open>
  Modelled from the spec: the scan of a cluster for a fingerprint, which is missing with
  the body of \<open>store\<close>. It gives the index of the first record with that fingerprint.
\<close>

fun find_key :: "32 word \<Rightarrow> TTEntry list \<Rightarrow> nat option" where
  "find_key k [] = None"
| "find_key k (e # es) = (if key e = k then Some 0 else map_option Suc (find_key k es))"

text \<open>
  Modelled from the spec: the eviction score, missing with the body of \<open>store\<close>. It
  grows with the distance of the record's generation from the current one and falls with
  its depth, the depth being the one the accessor \<open>depth\<close> returns. The coefficients
  are left open by the specification, so they are the parameters \<open>wg\<close> and \<open>wd\<close>.
\<close>

definition eviction_score :: "int \<Rightarrow> int \<Rightarrow> 8 word \<Rightarrow> TTEntry \<Rightarrow> int" where
  "eviction_score wg wd cur e = wg * uint (generation_distance cur e) - wd * sint (depth e)"

text \<open>
  Modelled from the spec: the order of eviction, missing with the body of \<open>store\<close>:
  the higher score first and, between equal scores, the lower depth.
\<close>

definition better_victim :: "int \<Rightarrow> int \<Rightarrow> 8 word \<Rightarrow> TTEntry \<Rightarrow> TTEntry \<Rightarrow> bool" where
  "better_victim wg wd cur a b \<longleftrightarrow>
     eviction_score wg wd cur a > eviction_score wg wd cur b \<or>
     (eviction_score wg wd cur a = eviction_score wg wd cur b \<and> sint (depth a) < sint (depth b))"

text \<open>
  Modelled from the spec: the selection of the victim, missing with the body of
  \<open>store\<close>: the index of the first record that no other record precedes in the order
  of eviction.
\<close>

fun victim :: "int \<Rightarrow> int \<Rightarrow> 8 word \<Rightarrow> TTEntry list \<Rightarrow> nat" where
  "victim wg wd cur [] = 0"
| "victim wg wd cur [e] = 0"
| "victim wg wd cur (e # es) =
     (let i = victim wg wd cur es
      in if better_victim wg wd cur (es ! i) e then Suc i else 0)"

text \<open>
  Modelled from the spec: what \<open>store\<close> does to the cluster of the key, its body being
  missing. The generation written is the current one. The indices come from the scan and
  are within the cluster; a cluster is never empty (on the empty list the last update
  would change nothing).
\<close>

definition store_cluster ::
  "enumerators \<Rightarrow> int \<Rightarrow> int \<Rightarrow> 8 word \<Rightarrow> TTEntry list \<Rightarrow> 32 word
     \<Rightarrow> Value \<Rightarrow> Bound \<Rightarrow> Depth \<Rightarrow> Move \<Rightarrow> TTEntry list"
where
  "store_cluster t wg wd cur c k v b d m =
     (case find_key k c of
        Some i \<Rightarrow> c[i := update t (c ! i) v b d m (ucast cur)]
      | None \<Rightarrow>
          (case find_key 0 c of
             Some i \<Rightarrow> c[i := save t (c ! i) k v b d m (ucast cur)]
           | None \<Rightarrow>
               (let i = victim wg wd cur c
                in c[i := save t (c ! i) k v b d m (ucast cur)])))"

text \<open>
  Modelled from the spec: \<open>TranspositionTable::store\<close>, whose body is missing. The
  cluster is the one \<open>first_entry\<close> gives and the fingerprint is the low 32 bits of the
  key. The index is within the array whenever the array has \<open>size_tt\<close> clusters and the
  size is a power of two; elsewhere the list update changes nothing.
\<close>

definition store ::
  "enumerators \<Rightarrow> int \<Rightarrow> int \<Rightarrow> TranspositionTable \<Rightarrow> Key
     \<Rightarrow> Value \<Rightarrow> Bound \<Rightarrow> Depth \<Rightarrow> Move \<Rightarrow> TranspositionTable"
where
  "store t wg wd tt posKey v b d m =
     (let i = unat (first_entry tt posKey);
          cl = entries tt ! i
      in tt\<lparr> entries := (entries tt)[i := cl\<lparr> data :=
           store_cluster t wg wd (generation_tt tt) (data cl) (ucast posKey) v b d m \<rparr>] \<rparr>)"

text \<open>
  A full cluster for the current generation 5: the four records have the keys 11 to 14,
  the generations 5, 3, 5, 4 and the depths 4, 20, 2, 3.
\<close>

definition slot :: "32 word \<Rightarrow> 8 word \<Rightarrow> 16 word \<Rightarrow> TTEntry" where
  "slot k g d =
     \<lparr> key32 = k, move16 = 0, bound = 2, generation8 = g,
       valueLower = 0, depthLower = d, valueUpper = 30002, depthUpper = 65282 \<rparr>"

definition full_cluster :: "TTEntry list" where
  "full_cluster = [slot 11 5 4, slot 12 3 20, slot 13 5 2, slot 14 4 3]"

section \<open>Facts about the flag bits\<close>

lemmas bound_defs = BOUND_NONE_def BOUND_UPPER_def BOUND_LOWER_def

lemma and_2_iff_bit: "((x::'a::len word) AND 2 \<noteq> 0) = bit x 1"
  using and_exp_eq_0_iff_not_bit [of x 1] by simp

lemma and_1_iff_bit: "((x::'a::len word) AND 1 \<noteq> 0) = bit x 0"
  using and_exp_eq_0_iff_not_bit [of x 0] by simp

lemma bit_xor_2: "bit ((x::8 word) XOR 2) n = (if n = 1 then \<not> bit x 1 else bit x n)"
proof -
  have "x XOR 2 = flip_bit 1 x" by (simp add: flip_bit_eq_xor)
  then show ?thesis by (auto simp add: bit_flip_bit_iff dest: bit_imp_le_length)
qed

lemma bit_xor_1: "bit ((x::8 word) XOR 1) n = (if n = 0 then \<not> bit x 0 else bit x n)"
proof -
  have "x XOR 1 = flip_bit 0 x" by (simp add: flip_bit_eq_xor)
  then show ?thesis by (auto simp add: bit_flip_bit_iff dest: bit_imp_le_length)
qed

lemma bit_or_1: "bit ((x::8 word) OR 1) n = (n = 0 \<or> bit x n)"
  by (auto simp add: bit_or_iff bit_1_iff)

lemma bit_or_2: "bit ((x::8 word) OR 2) n = (n = 1 \<or> bit x n)"
proof -
  have "x OR 2 = set_bit 1 x" by (simp add: set_bit_eq_or)
  then show ?thesis by (auto simp add: bit_set_bit_iff dest: bit_imp_le_length)
qed

lemma bit_or_ucast:
  "bit ((x::8 word) OR ucast (b :: 32 word)) n = (bit x n \<or> (n < 8 \<and> bit b n))"
  by (auto simp add: bit_simps dest: bit_imp_le_length)

lemma has_upper_bit: "has_upper e = bit (bound e) 0"
  by (simp add: has_upper_def BOUND_UPPER_def and_1_iff_bit bit_simps)

lemma has_lower_bit: "has_lower e = bit (bound e) 1"
  by (simp add: has_lower_def BOUND_LOWER_def and_2_iff_bit bit_simps)

lemma exact_has_both_bits: "exact_has_both t \<longleftrightarrow> bit (BOUND_EXACT t) 0 \<and> bit (BOUND_EXACT t) 1"
  by (simp add: exact_has_both_def bound_defs and_1_iff_bit and_2_iff_bit)

section \<open>The first statement of \<open>update\<close>\<close>

text \<open>
  Dropping the EXACT flag changes the flags byte at most, and it keeps the UPPER and
  LOWER flags when EXACT includes both.
\<close>

lemma drop_exact_fields:
  "key32 (drop_exact t e) = key32 e" "move16 (drop_exact t e) = move16 e"
  "generation8 (drop_exact t e) = generation8 e"
  "valueUpper (drop_exact t e) = valueUpper e" "depthUpper (drop_exact t e) = depthUpper e"
  "valueLower (drop_exact t e) = valueLower e" "depthLower (drop_exact t e) = depthLower e"
  by (simp_all add: drop_exact_def)

lemma drop_exact_bound:
  "bound (drop_exact t e) = (if (ucast (bound e) :: 32 word) = BOUND_EXACT t then 3 else bound e)"
  by (simp add: drop_exact_def bound_defs)

lemma drop_exact_flags:
  assumes "exact_has_both t"
  shows "bit (bound (drop_exact t e)) 0 = bit (bound e) 0"
    and "bit (bound (drop_exact t e)) (Suc 0) = bit (bound e) (Suc 0)"
proof -
  have "bit (bound e) 0 \<and> bit (bound e) 1" if "(ucast (bound e) :: 32 word) = BOUND_EXACT t"
  proof -
    from assms that have "bit (ucast (bound e) :: 32 word) 0" "bit (ucast (bound e) :: 32 word) 1"
      by (simp_all add: exact_has_both_bits)
    then show ?thesis
      by (simp add: bit_simps)
  qed
  moreover have "bit (3 :: 8 word) 0" "bit (3 :: 8 word) 1"
    by (simp_all add: bit_simps)
  ultimately show "bit (bound (drop_exact t e)) 0 = bit (bound e) 0"
    and "bit (bound (drop_exact t e)) (Suc 0) = bit (bound e) (Suc 0)"
    by (auto simp add: drop_exact_bound)
qed

lemma drop_exact_move_generation:
  "drop_exact t (e\<lparr> move16 := m, generation8 := g \<rparr>)
     = (drop_exact t e)\<lparr> move16 := m, generation8 := g \<rparr>"
  by (simp add: drop_exact_def)

lemma drop_exact_id:
  "BOUND_EXACT t = BOUND_UPPER OR BOUND_LOWER \<or> (ucast (bound e) :: 32 word) \<noteq> BOUND_EXACT t
     \<Longrightarrow> drop_exact t e = e"
proof -
  have "(ucast (x :: 8 word) :: 32 word) = 3 \<Longrightarrow> x = 3" for x
  proof -
    assume "(ucast x :: 32 word) = 3"
    then have "(ucast (ucast x :: 32 word) :: 8 word) = ucast (3 :: 32 word)" by simp
    then show "x = 3" by (simp add: ucast_up_ucast_id is_up)
  qed
  then show "BOUND_EXACT t = BOUND_UPPER OR BOUND_LOWER \<or> (ucast (bound e) :: 32 word) \<noteq> BOUND_EXACT t
     \<Longrightarrow> drop_exact t e = e"
    by (auto simp add: drop_exact_def bound_defs)
qed

section \<open>What \<open>update\<close> computes, by the bound it is given\<close>

lemma update_upper_only:
  "update t e v BOUND_UPPER d m g =
     (let e' = drop_exact t e in
      if bit (bound e') 1 \<and> sint v < sint (valueLower e)
      then e'\<lparr> move16 := ucast m, generation8 := ucast g,
                valueUpper := ucast v, depthUpper := ucast d,
                bound := (bound e' XOR 2) OR 1,
                valueLower := ucast (VALUE_NONE t), depthLower := ucast (DEPTH_NONE t) \<rparr>
      else e'\<lparr> move16 := ucast m, generation8 := ucast g,
                valueUpper := ucast v, depthUpper := ucast d,
                bound := bound e' OR 1 \<rparr>)"
  by (simp add: update_def drop_exact_move_generation drop_exact_fields update_upper_def
      update_lower_def Let_def bound_defs and_2_iff_bit bit_simps)

lemma update_lower_only:
  "update t e v BOUND_LOWER d m g =
     (let e' = drop_exact t e in
      if bit (bound e') 0 \<and> sint v > sint (valueUpper e)
      then e'\<lparr> move16 := ucast m, generation8 := ucast g,
                valueLower := ucast v, depthLower := ucast d,
                bound := (bound e' XOR 1) OR 2,
                valueUpper := ucast (VALUE_NONE t), depthUpper := ucast (DEPTH_NONE t) \<rparr>
      else e'\<lparr> move16 := ucast m, generation8 := ucast g,
                valueLower := ucast v, depthLower := ucast d,
                bound := bound e' OR 2 \<rparr>)"
  by (simp add: update_def drop_exact_move_generation drop_exact_fields update_upper_def
      update_lower_def Let_def bound_defs and_1_iff_bit bit_simps)

lemma update_none:
  "update t e v BOUND_NONE d m g = (drop_exact t e)\<lparr> move16 := ucast m, generation8 := ucast g \<rparr>"
  by (simp add: update_def drop_exact_move_generation update_upper_def update_lower_def
      Let_def bound_defs)

section \<open>Truncating casts that lose nothing\<close>

lemma sint_ucast_16:
  assumes "- 32768 \<le> sint (v :: 32 word)" and "sint v < 32768"
  shows "sint (ucast v :: 16 word) = sint v"
proof -
  have "sint (ucast v :: 16 word) = signed_take_bit 15 (uint v)"
    using signed_ucast_eq [of v, where ?'c = 16 and ?'a = int] by simp
  also have "\<dots> = signed_take_bit 15 (signed_take_bit 31 (uint v))"
    by simp
  also have "\<dots> = signed_take_bit 15 (sint v)"
    using sint_uint [of v] by simp
  also have "\<dots> = sint v"
    using assms by (simp add: signed_take_bit_int_eq_self)
  finally show ?thesis .
qed

lemma scast_ucast_in_range:
  "- 32768 \<le> sint (v :: 32 word) \<Longrightarrow> sint v < 32768
     \<Longrightarrow> (scast (ucast v :: 16 word) :: 32 word) = v"
  by (simp add: scast_eq sint_ucast_16)

lemma ucast_ucast_16:
  assumes "unat (m :: 32 word) < 65536"
  shows "(ucast (ucast m :: 16 word) :: 32 word) = m"
proof -
  have "uint (ucast (ucast m :: 16 word) :: 32 word) = uint (ucast m :: 16 word)"
    by (rule uint_up_ucast) (simp add: is_up)
  then have "unat (ucast (ucast m :: 16 word) :: 32 word) = unat (ucast m :: 16 word)"
    by (simp only: unat_eq_nat_uint)
  also have "\<dots> = take_bit 16 (unat m)"
    using unsigned_ucast_eq [of m, where ?'c = 16 and ?'a = nat] by simp
  also have "\<dots> = unat m"
    using assms by (simp add: take_bit_nat_eq_self)
  finally show ?thesis
    by (simp only: word_unat_eq_iff)
qed

lemma ucast_ucast_8:
  assumes "unat (m :: 32 word) < 256"
  shows "(ucast (ucast m :: 8 word) :: 32 word) = m"
proof -
  have "uint (ucast (ucast m :: 8 word) :: 32 word) = uint (ucast m :: 8 word)"
    by (rule uint_up_ucast) (simp add: is_up)
  then have "unat (ucast (ucast m :: 8 word) :: 32 word) = unat (ucast m :: 8 word)"
    by (simp only: unat_eq_nat_uint)
  also have "\<dots> = take_bit 8 (unat m)"
    using unsigned_ucast_eq [of m, where ?'c = 8 and ?'a = nat] by simp
  also have "\<dots> = unat m"
    using assms by (simp add: take_bit_nat_eq_self)
  finally show ?thesis
    by (simp only: word_unat_eq_iff)
qed

lemma ucast_8_32_8: "(ucast (ucast (g :: 8 word) :: 32 word) :: 8 word) = g"
  by (simp add: ucast_up_ucast_id is_up)

section \<open>The invariant of the pairs\<close>

lemma save_invariant: "pair_invariant t (save t e k v b d m g)"
  by (simp add: pair_invariant_def save_def has_upper_def has_lower_def bound_defs
      and_1_iff_bit and_2_iff_bit bit_simps)

lemma drop_exact_invariant: "pair_invariant t e \<Longrightarrow> pair_invariant t (drop_exact t e)"
  by (auto simp add: pair_invariant_def drop_exact_def has_upper_def has_lower_def bound_defs)

lemma update_invariant:
  assumes "pair_invariant t e"
  shows "pair_invariant t (update t e v b d m g)"
proof -
  have "pair_invariant t (e\<lparr> move16 := ucast m, generation8 := ucast g \<rparr>)"
    using assms by (simp add: pair_invariant_def has_upper_def has_lower_def)
  then have "pair_invariant t (drop_exact t (e\<lparr> move16 := ucast m, generation8 := ucast g \<rparr>))"
    by (rule drop_exact_invariant)
  then show ?thesis
    by (auto simp add: pair_invariant_def update_def update_upper_def
        update_lower_def Let_def has_upper_bit has_lower_bit bound_defs and_1_iff_bit
        and_2_iff_bit bit_or_ucast bit_xor_1 bit_xor_2 bit_simps)
qed

lemma apply_operation_invariant:
  "pair_invariant t e \<Longrightarrow> pair_invariant t (apply_operation t e x)"
  by (cases x) (simp_all add: save_invariant update_invariant)

lemma apply_operations_invariant:
  "pair_invariant t e \<Longrightarrow> pair_invariant t (apply_operations t e xs)"
  unfolding apply_operations_def
  by (induction xs arbitrary: e) (simp_all add: apply_operation_invariant)

section \<open>What \<open>update\<close> keeps and writes for every bound\<close>

lemma update_both_in_range:
  assumes "b AND BOUND_UPPER \<noteq> 0" and "b AND BOUND_LOWER \<noteq> 0"
    and "- 32768 \<le> sint v" and "sint v < 32768"
  shows "has_upper (update t e v b d m g)"
    "has_lower (update t e v b d m g)"
    "valueUpper (update t e v b d m g) = ucast v"
    "depthUpper (update t e v b d m g) = ucast d"
    "valueLower (update t e v b d m g) = ucast v"
    "depthLower (update t e v b d m g) = ucast d"
  using assms(1,2) sint_ucast_16 [OF assms(3,4)]
  by (simp_all add: update_def update_upper_def update_lower_def Let_def
      has_upper_bit has_lower_bit bound_defs bit_or_ucast and_1_iff_bit and_2_iff_bit)

lemma update_move_generation:
  "move16 (update t e v b d m g) = ucast m" "generation8 (update t e v b d m g) = ucast g"
  "key32 (update t e v b d m g) = key32 e"
  by (simp_all add: update_def drop_exact_def update_upper_def update_lower_def Let_def)

lemma update_bound_or:
  "bound (update t e v b d m g) =
     bound (update_lower t (update_upper t
       (drop_exact t (e\<lparr> move16 := ucast m, generation8 := ucast g \<rparr>)) v b d) v b d) OR ucast b"
  by (simp add: update_def Let_def)

section \<open>What \<open>save\<close> computes\<close>

lemma save_type:
  "unat b < 256 \<Longrightarrow> type_of_entry (save t e k v b d m g) = b"
  by (simp add: type_of_entry_def save_def ucast_ucast_8)

lemma save_exact_in_range:
  assumes "exact_has_both t"
    and "- 32768 \<le> sint v" "sint v < 32768" "- 32768 \<le> sint d" "sint d < 32768"
  shows "has_upper (save t e k v (BOUND_EXACT t) d m g)"
    "has_lower (save t e k v (BOUND_EXACT t) d m g)"
    "value_upper (save t e k v (BOUND_EXACT t) d m g) = v"
    "depth_upper (save t e k v (BOUND_EXACT t) d m g) = d"
    "value_lower (save t e k v (BOUND_EXACT t) d m g) = v"
    "depth (save t e k v (BOUND_EXACT t) d m g) = d"
  using assms(1) [unfolded exact_has_both_def] assms(1) [unfolded exact_has_both_bits] assms(2-)
  by (simp_all add: save_def has_upper_bit has_lower_bit value_upper_def depth_upper_def
      value_lower_def depth_def scast_ucast_in_range bit_simps)

lemma save_any_entry: "save t e k v b d m g = save t e' k v b d m g"
  by (cases e, cases e') (simp add: save_def)

lemma save_fields:
  "key32 (save t e k v b d m g) = k"
  "move16 (save t e k v b d m g) = ucast m"
  "generation8 (save t e k v b d m g) = ucast g"
  "bound (save t e k v b d m g) = ucast b"
  "b AND BOUND_UPPER \<noteq> 0 \<Longrightarrow> valueUpper (save t e k v b d m g) = ucast v"
  "b AND BOUND_UPPER \<noteq> 0 \<Longrightarrow> depthUpper (save t e k v b d m g) = ucast d"
  "b AND BOUND_UPPER = 0 \<Longrightarrow> valueUpper (save t e k v b d m g) = ucast (VALUE_NONE t)"
  "b AND BOUND_UPPER = 0 \<Longrightarrow> depthUpper (save t e k v b d m g) = ucast (DEPTH_NONE t)"
  "b AND BOUND_LOWER \<noteq> 0 \<Longrightarrow> valueLower (save t e k v b d m g) = ucast v"
  "b AND BOUND_LOWER \<noteq> 0 \<Longrightarrow> depthLower (save t e k v b d m g) = ucast d"
  "b AND BOUND_LOWER = 0 \<Longrightarrow> valueLower (save t e k v b d m g) = ucast (VALUE_NONE t)"
  "b AND BOUND_LOWER = 0 \<Longrightarrow> depthLower (save t e k v b d m g) = ucast (DEPTH_NONE t)"
  by (simp_all add: save_def)

lemma sample_enumerators_both: "exact_has_both sample_enumerators"
  by (simp add: exact_has_both_def sample_enumerators_def bound_defs)

section \<open>Cluster addressing\<close>

lemma low32: "(ucast (ucast (k :: 64 word) :: 32 word) :: 64 word) = take_bit 32 k"
  by (rule bit_word_eqI) (auto simp add: bit_simps)

lemma first_entry_take_bit:
  assumes "size_tt tt = 2 ^ n"
  shows "first_entry tt k = take_bit (min n 32) k"
proof -
  have "first_entry tt k = take_bit 32 k AND mask n"
    using assms by (simp add: first_entry_def low32 mask_eq_exp_minus_1)
  also have "\<dots> = take_bit n (take_bit 32 k)"
    by (simp only: take_bit_eq_mask)
  also have "\<dots> = take_bit (min n 32) k"
    by simp
  finally show ?thesis .
qed

lemma first_entry_in_range:
  assumes "size_tt tt = 2 ^ n" and "n < 64"
  shows "first_entry tt k < size_tt tt"
proof -
  have "first_entry tt k = ucast (ucast k :: 32 word) AND mask n"
    using assms by (simp add: first_entry_def mask_eq_exp_minus_1)
  moreover have "(ucast (ucast k :: 32 word) :: 64 word) AND mask n < 2 ^ n"
    using assms by (simp add: and_mask_less')
  ultimately show ?thesis
    using assms by simp
qed

lemma first_entry_mask:
  assumes "size_tt tt = 2 ^ n" and "n \<le> 32"
  shows "first_entry tt k = k AND (size_tt tt - 1)"
proof -
  have "first_entry tt k = take_bit n k"
    using assms by (simp add: first_entry_take_bit min_def)
  also have "\<dots> = k AND mask n"
    by (simp only: take_bit_eq_mask)
  also have "\<dots> = k AND (size_tt tt - 1)"
    using assms by (simp add: mask_eq_exp_minus_1)
  finally show ?thesis .
qed

lemma ucast_congruent:
  assumes "unat (k1 :: 64 word) mod 2 ^ 32 = unat (k2 :: 64 word) mod 2 ^ 32"
  shows "(ucast k1 :: 32 word) = ucast k2"
proof -
  have "take_bit 32 (unat k1) = take_bit 32 (unat k2)"
    using assms by (simp add: take_bit_eq_mod)
  then have "unat (ucast k1 :: 32 word) = unat (ucast k2 :: 32 word)"
    using unsigned_ucast_eq [of k1, where ?'c = 32 and ?'a = nat]
      unsigned_ucast_eq [of k2, where ?'c = 32 and ?'a = nat] by simp
  then show ?thesis
    by (simp only: word_unat_eq_iff)
qed

section \<open>The scan of a cluster\<close>

lemma find_key_Some:
  "find_key k c = Some i \<Longrightarrow> i < length c \<and> key (c ! i) = k \<and> (\<forall>j<i. key (c ! j) \<noteq> k)"
proof (induction c arbitrary: i)
  case Nil
  then show ?case by simp
next
  case (Cons e es)
  show ?case
  proof (cases "key e = k")
    case True
    with Cons.prems show ?thesis by simp
  next
    case False
    with Cons.prems obtain i' where i': "find_key k es = Some i'" "i = Suc i'"
      by auto
    from Cons.IH [OF i'(1)] False i'(2) show ?thesis
      by (auto simp add: less_Suc_eq_0_disj)
  qed
qed

lemma find_key_None:
  "find_key k c = None \<longleftrightarrow> (\<forall>i<length c. key (c ! i) \<noteq> k)"
proof (induction c)
  case Nil
  then show ?case by simp
next
  case (Cons e es)
  then show ?case
    by (auto simp add: less_Suc_eq_0_disj)
qed

lemma better_victim_asym:
  "better_victim wg wd cur a b \<Longrightarrow> \<not> better_victim wg wd cur b a"
  by (auto simp add: better_victim_def)

lemma not_better_victim_trans:
  "\<not> better_victim wg wd cur a b \<Longrightarrow> \<not> better_victim wg wd cur b c
     \<Longrightarrow> \<not> better_victim wg wd cur a c"
  by (auto simp add: better_victim_def)

lemma not_better_victim_refl: "\<not> better_victim wg wd cur a a"
  by (simp add: better_victim_def)

lemma victim_best:
  "c \<noteq> [] \<Longrightarrow>
     victim wg wd cur c < length c \<and>
     (\<forall>j<length c. \<not> better_victim wg wd cur (c ! j) (c ! victim wg wd cur c))"
proof (induction wg wd cur c rule: victim.induct)
  case (1 wg wd cur)
  then show ?case by simp
next
  case (2 wg wd cur e)
  then show ?case by (simp add: not_better_victim_refl)
next
  case (3 wg wd cur e e' es)
  let ?es = "e' # es"
  let ?i = "victim wg wd cur ?es"
  from "3.IH" have i: "?i < length ?es"
    and best: "\<And>j. j < length ?es \<Longrightarrow> \<not> better_victim wg wd cur (?es ! j) (?es ! ?i)"
    by simp_all
  show ?case
  proof (cases "better_victim wg wd cur (?es ! ?i) e")
    case True
    then have v: "victim wg wd cur (e # ?es) = Suc ?i"
      by (simp add: Let_def)
    have "\<not> better_victim wg wd cur ((e # ?es) ! j) (?es ! ?i)" if "j < length (e # ?es)" for j
    proof (cases j)
      case 0
      with True show ?thesis by (simp add: better_victim_asym)
    next
      case (Suc j')
      with that best [of j'] show ?thesis by simp
    qed
    with i v show ?thesis by simp
  next
    case False
    then have v: "victim wg wd cur (e # ?es) = 0"
      by (simp add: Let_def)
    have "\<not> better_victim wg wd cur ((e # ?es) ! j) e" if "j < length (e # ?es)" for j
    proof (cases j)
      case 0
      then show ?thesis by (simp add: not_better_victim_refl)
    next
      case (Suc j')
      with that best [of j'] False show ?thesis
        by (auto dest: not_better_victim_trans)
    qed
    with v show ?thesis by simp
  qed
qed

lemma not_better_victim_iff:
  "\<not> better_victim wg wd cur a b \<longleftrightarrow>
     eviction_score wg wd cur a \<le> eviction_score wg wd cur b \<and>
     (eviction_score wg wd cur a = eviction_score wg wd cur b \<longrightarrow> sint (depth b) \<le> sint (depth a))"
  by (auto simp add: better_victim_def)

lemma key_update: "key (update t e v b d m g) = key e"
  by (simp add: key_def update_move_generation)

lemma store_cluster_match:
  assumes "\<exists>i<length c. key (c ! i) = k"
  shows "\<exists>i<length c. key (c ! i) = k \<and> (\<forall>j<i. key (c ! j) \<noteq> k) \<and>
           store_cluster t wg wd cur c k v b d m = c[i := update t (c ! i) v b d m (ucast cur)] \<and>
           key (store_cluster t wg wd cur c k v b d m ! i) = k"
proof -
  from assms have "find_key k c \<noteq> None"
    by (simp add: find_key_None)
  then obtain i where i: "find_key k c = Some i"
    by auto
  from find_key_Some [OF i] have p: "i < length c" "key (c ! i) = k" "\<forall>j<i. key (c ! j) \<noteq> k"
    by simp_all
  have s: "store_cluster t wg wd cur c k v b d m = c[i := update t (c ! i) v b d m (ucast cur)]"
    by (simp add: store_cluster_def i)
  from p s show ?thesis
    by (auto simp add: key_update)
qed

lemma store_cluster_empty:
  assumes "\<forall>i<length c. key (c ! i) \<noteq> k" and "\<exists>i<length c. key (c ! i) = 0"
  shows "\<exists>i<length c. key (c ! i) = 0 \<and> (\<forall>j<i. key (c ! j) \<noteq> 0) \<and>
           store_cluster t wg wd cur c k v b d m = c[i := save t (c ! i) k v b d m (ucast cur)]"
proof -
  from assms(1) have n: "find_key k c = None"
    by (simp add: find_key_None)
  from assms(2) have "find_key 0 c \<noteq> None"
    by (simp add: find_key_None)
  then obtain i where i: "find_key 0 c = Some i"
    by auto
  from find_key_Some [OF i] have p: "i < length c" "key (c ! i) = 0" "\<forall>j<i. key (c ! j) \<noteq> 0"
    by simp_all
  have "store_cluster t wg wd cur c k v b d m = c[i := save t (c ! i) k v b d m (ucast cur)]"
    by (simp add: store_cluster_def n i)
  with p show ?thesis
    by auto
qed

lemma store_cluster_victim:
  assumes "\<forall>i<length c. key (c ! i) \<noteq> k \<and> key (c ! i) \<noteq> 0" and "c \<noteq> []"
  shows "\<exists>i<length c.
           store_cluster t wg wd cur c k v b d m = c[i := save t (c ! i) k v b d m (ucast cur)] \<and>
           (\<forall>j<length c.
              eviction_score wg wd cur (c ! j) \<le> eviction_score wg wd cur (c ! i) \<and>
              (eviction_score wg wd cur (c ! j) = eviction_score wg wd cur (c ! i)
                 \<longrightarrow> sint (depth (c ! i)) \<le> sint (depth (c ! j))))"
proof -
  from assms(1) have n: "find_key k c = None" "find_key 0 c = None"
    by (simp_all add: find_key_None)
  let ?i = "victim wg wd cur c"
  have "store_cluster t wg wd cur c k v b d m = c[?i := save t (c ! ?i) k v b d m (ucast cur)]"
    by (simp add: store_cluster_def n Let_def)
  with victim_best [OF assms(2), of wg wd cur] show ?thesis
    by (auto simp add: not_better_victim_iff)
qed

lemma eviction_score_order:
  assumes "0 < wd" and "wd < wg"
  shows "uint (generation_distance cur x) > uint (generation_distance cur y) \<and> depth x = depth y
           \<longrightarrow> eviction_score wg wd cur x > eviction_score wg wd cur y"
    and "generation_distance cur x = generation_distance cur y \<and> sint (depth x) < sint (depth y)
           \<longrightarrow> eviction_score wg wd cur x > eviction_score wg wd cur y"
    and "uint (generation_distance cur x) = uint (generation_distance cur y) + 1 \<and>
         sint (depth x) = sint (depth y) + 1
           \<longrightarrow> eviction_score wg wd cur x > eviction_score wg wd cur y"
  using assms by (auto simp add: eviction_score_def algebra_simps)

lemma store_entries:
  assumes "unat (first_entry tt posKey) < length (entries tt)"
  shows "data (entries (store t wg wd tt posKey v b d m) ! unat (first_entry tt posKey))
           = store_cluster t wg wd (generation_tt tt)
               (data (entries tt ! unat (first_entry tt posKey))) (ucast posKey) v b d m"
    and "\<forall>j<length (entries tt). j \<noteq> unat (first_entry tt posKey)
           \<longrightarrow> entries (store t wg wd tt posKey v b d m) ! j = entries tt ! j"
    and "length (entries (store t wg wd tt posKey v b d m)) = length (entries tt)"
  using assms by (simp_all add: store_def Let_def)

lemma full_cluster_facts:
  "length full_cluster = 4"
  "key (full_cluster ! 0) = 11" "key (full_cluster ! 1) = 12"
  "key (full_cluster ! 2) = 13" "key (full_cluster ! 3) = 14"
  "eviction_score 512 1 5 (full_cluster ! 0) = - 4"
  "eviction_score 512 1 5 (full_cluster ! 1) = 1004"
  "eviction_score 512 1 5 (full_cluster ! 2) = - 2"
  "eviction_score 512 1 5 (full_cluster ! 3) = 509"
  by (simp_all add: full_cluster_def slot_def key_def eviction_score_def
      generation_distance_def depth_def)

lemma less_4_cases: "i < (4 :: nat) \<Longrightarrow> i = 0 \<or> i = 1 \<or> i = 2 \<or> i = 3"
  by arith

lemma table_4_facts:
  "unat (first_entry table_4 7) = 3" "length (entries table_4) = 4"
  "generation_tt table_4 = 0" "data (entries table_4 ! 3) = zero_cluster"
  by (simp_all add: table_4_def first_entry_def)

lemma zero_cluster_facts:
  "length zero_cluster = 4" "key (zero_cluster ! 0) = 0" "key (zero_cluster ! 1) = 0"
  "key (zero_cluster ! 2) = 0" "key (zero_cluster ! 3) = 0"
  by (simp_all add: zero_cluster_def empty_entry_def key_def)

section \<open>Claims about the entry\<close>

text \<open>
  C1, as amended. Let \<open>BOUND_EXACT\<close> include both flags. Then
  \<open>update\<close> with the bound UPPER alone overwrites the upper pair with the
  (truncated) value and depth and sets the UPPER flag; when the LOWER flag is set and the
  stored lower value is greater than the new value, the LOWER flag is cleared and the
  lower pair is reset to the sentinels; otherwise the lower pair and its flag stay as they
  were. The same holds with UPPER and LOWER exchanged, for the bound LOWER alone. With
  a bound that includes both flags and a value that fits 16 bits, both flags are set
  afterwards and both pairs hold the new value and depth.
\<close>

theorem merge_one_sided:
  assumes "exact_has_both t"
  shows
  "(let u = update t e v BOUND_UPPER d m g in
      valueUpper u = ucast v \<and> depthUpper u = ucast d \<and> has_upper u \<and>
      (has_lower e \<and> sint (valueLower e) > sint v \<longrightarrow>
         \<not> has_lower u \<and> valueLower u = ucast (VALUE_NONE t) \<and>
         depthLower u = ucast (DEPTH_NONE t)) \<and>
      (\<not> (has_lower e \<and> sint (valueLower e) > sint v) \<longrightarrow>
         has_lower u = has_lower e \<and> valueLower u = valueLower e \<and>
         depthLower u = depthLower e)) \<and>
   (let l = update t e v BOUND_LOWER d m g in
      valueLower l = ucast v \<and> depthLower l = ucast d \<and> has_lower l \<and>
      (has_upper e \<and> sint v > sint (valueUpper e) \<longrightarrow>
         \<not> has_upper l \<and> valueUpper l = ucast (VALUE_NONE t) \<and>
         depthUpper l = ucast (DEPTH_NONE t)) \<and>
      (\<not> (has_upper e \<and> sint v > sint (valueUpper e)) \<longrightarrow>
         has_upper l = has_upper e \<and> valueUpper l = valueUpper e \<and>
         depthUpper l = depthUpper e)) \<and>
   (let x = update t e v b d m g in
      b AND BOUND_UPPER \<noteq> 0 \<and> b AND BOUND_LOWER \<noteq> 0 \<and>
      - 32768 \<le> sint v \<and> sint v < 32768 \<longrightarrow>
        has_upper x \<and> has_lower x \<and> valueUpper x = ucast v \<and> depthUpper x = ucast d \<and>
        valueLower x = ucast v \<and> depthLower x = ucast d)"
  (is "?U \<and> ?L \<and> ?X")
proof -
  note flags = drop_exact_flags [OF assms, of e]
  have U: ?U
    by (simp add: Let_def update_upper_only has_upper_bit has_lower_bit bit_or_1 bit_xor_2
        drop_exact_fields flags)
  have L: ?L
    by (simp add: Let_def update_lower_only has_upper_bit has_lower_bit bit_or_2 bit_xor_1
        drop_exact_fields flags)
  have X: ?X
    by (simp add: Let_def update_both_in_range)
  show ?thesis
    by (rule conjI [OF U conjI [OF L X]])
qed

text \<open>
  The theorem at concrete entries: an upper bound of 30 clears a stored lower bound of
  50 and one of 60 keeps it; a lower bound of 60 clears a stored upper bound of 30 and
  one of 20 keeps it; a bound with both flags and the value 30 stores the lower pair.
\<close>

theorem merge_one_sided_witness:
  "exact_has_both sample_enumerators \<and>
   (has_lower lower_50_10 \<and> sint (valueLower lower_50_10) > sint (30 :: Value)) \<and>
   \<not> has_lower (update sample_enumerators lower_50_10 30 BOUND_UPPER 8 2 2) \<and>
   valueLower (update sample_enumerators lower_50_10 30 BOUND_UPPER 8 2 2) = 30002 \<and>
   valueUpper (update sample_enumerators lower_50_10 30 BOUND_UPPER 8 2 2) = 30 \<and>
   \<not> (has_lower lower_50_10 \<and> sint (valueLower lower_50_10) > sint (60 :: Value)) \<and>
   has_lower (update sample_enumerators lower_50_10 60 BOUND_UPPER 8 2 2) \<and>
   valueLower (update sample_enumerators lower_50_10 60 BOUND_UPPER 8 2 2) = 50 \<and>
   (has_upper upper_30_8 \<and> sint (60 :: Value) > sint (valueUpper upper_30_8)) \<and>
   \<not> has_upper (update sample_enumerators upper_30_8 60 BOUND_LOWER 8 2 2) \<and>
   valueUpper (update sample_enumerators upper_30_8 60 BOUND_LOWER 8 2 2) = 30002 \<and>
   \<not> (has_upper upper_30_8 \<and> sint (20 :: Value) > sint (valueUpper upper_30_8)) \<and>
   has_upper (update sample_enumerators upper_30_8 20 BOUND_LOWER 8 2 2) \<and>
   valueUpper (update sample_enumerators upper_30_8 20 BOUND_LOWER 8 2 2) = 30 \<and>
   (3 AND BOUND_UPPER \<noteq> 0 \<and> 3 AND BOUND_LOWER \<noteq> 0 \<and>
    - 32768 \<le> sint (30 :: Value) \<and> sint (30 :: Value) < 32768) \<and>
   has_lower (update sample_enumerators lower_50_10 30 3 8 2 2) \<and>
   valueLower (update sample_enumerators lower_50_10 30 3 8 2 2) = 30"
proof -
  note h = sample_enumerators_both
  have l: "has_lower lower_50_10" "\<not> has_upper lower_50_10" "valueLower lower_50_10 = 50"
    by (simp_all add: lower_50_10_def has_lower_def has_upper_def bound_defs)
  have u: "has_upper upper_30_8" "\<not> has_lower upper_30_8" "valueUpper upper_30_8 = 30"
    by (simp_all add: upper_30_8_def has_lower_def has_upper_def bound_defs)
  have n: "VALUE_NONE sample_enumerators = 30002" "3 AND BOUND_UPPER \<noteq> 0" "3 AND BOUND_LOWER \<noteq> 0"
    by (simp_all add: sample_enumerators_def bound_defs)
  show ?thesis
    using merge_one_sided [OF h, of lower_50_10 30 8 2 2 3]
      merge_one_sided [OF h, of lower_50_10 60 8 2 2 3]
      merge_one_sided [OF h, of upper_30_8 60 8 2 2 3]
      merge_one_sided [OF h, of upper_30_8 20 8 2 2 3]
    by (simp add: Let_def l u n h)
qed

text \<open>
  C1 as stated fails for a bound that includes both UPPER and LOWER. The entry holds the
  lower bound 50 and \<open>update\<close> is given the value 30 with the bound EXACT: the bound
  includes UPPER, the LOWER flag is set and the stored lower value exceeds 30, yet
  afterwards the LOWER flag is set and the lower pair is (30, 8), not the sentinels.
\<close>

theorem merge_exact_counterexample:
  "BOUND_EXACT sample_enumerators AND BOUND_UPPER \<noteq> 0 \<and> has_lower lower_50_10 \<and>
   sint (valueLower lower_50_10) > sint (30 :: Value) \<and>
   has_lower (update sample_enumerators lower_50_10 30 (BOUND_EXACT sample_enumerators) 8 2 2) \<and>
   valueLower (update sample_enumerators lower_50_10 30 (BOUND_EXACT sample_enumerators) 8 2 2) = 30 \<and>
   depthLower (update sample_enumerators lower_50_10 30 (BOUND_EXACT sample_enumerators) 8 2 2) = 8 \<and>
   (30 :: 16 word) \<noteq> ucast (VALUE_NONE sample_enumerators)"
  by (simp add: update_def drop_exact_def update_upper_def update_lower_def Let_def
      has_lower_def lower_50_10_def sample_enumerators_def bound_defs)

text \<open>
  C2, as amended. Let \<open>BOUND_EXACT\<close> include both flags. Then
  \<open>save\<close> of the lower bound (50, depth 10) on a zeroed entry followed
  by \<open>update\<close> with the upper bound (30, depth 8) leaves the UPPER flag alone: the new
  upper value 30 is below the stored lower value 50, so the lower pair is reset to the
  sentinels. The upper pair is (30, 8), the move is the second move and the generation
  is 2.
\<close>

theorem scenario_upper_only:
  assumes "exact_has_both t"
  shows "update t (save t empty_entry 0x1234 50 BOUND_LOWER 10 M1 1) 30 BOUND_UPPER 8 M2 2
     = \<lparr> key32 = 0x1234, move16 = ucast M2, bound = 1, generation8 = 2,
         valueLower = ucast (VALUE_NONE t), depthLower = ucast (DEPTH_NONE t),
         valueUpper = 30, depthUpper = 8 \<rparr>"
proof -
  let ?s = "save t empty_entry 0x1234 50 BOUND_LOWER 10 M1 1"
  have s: "?s = \<lparr> key32 = 0x1234, move16 = ucast M1, bound = 2, generation8 = 1,
         valueLower = 50, depthLower = 10,
         valueUpper = ucast (VALUE_NONE t), depthUpper = ucast (DEPTH_NONE t) \<rparr>"
    by (simp add: save_def empty_entry_def bound_defs)
  from assms have "BOUND_EXACT t \<noteq> 2"
    by (auto simp add: exact_has_both_def bound_defs)
  then have "drop_exact t ?s = ?s"
    by (intro drop_exact_id disjI2) (simp add: s)
  then show ?thesis
    unfolding update_upper_only
    by (simp add: Let_def) (simp add: s)
qed

text \<open>The theorem for the sample enumerators and the moves 1 and 2.\<close>

theorem scenario_upper_only_witness:
  "exact_has_both sample_enumerators \<and>
   scenario_entry
     = \<lparr> key32 = 0x1234, move16 = 2, bound = 1, generation8 = 2,
         valueLower = ucast (VALUE_NONE sample_enumerators),
         depthLower = ucast (DEPTH_NONE sample_enumerators),
         valueUpper = 30, depthUpper = 8 \<rparr>"
  using scenario_upper_only [OF sample_enumerators_both, of 1 2] sample_enumerators_both
  by (simp add: scenario_entry_def)

text \<open>
  C2 as stated fails: after the scenario the LOWER flag is clear and the lower pair is
  neither 50 nor 10.
\<close>

theorem scenario_counterexample:
  "\<not> has_lower scenario_entry \<and> valueLower scenario_entry \<noteq> 50 \<and>
   depthLower scenario_entry \<noteq> 10 \<and> has_upper scenario_entry \<and>
   valueUpper scenario_entry = 30 \<and> depthUpper scenario_entry = 8"
  by (simp add: scenario_entry_def update_def drop_exact_def update_upper_def update_lower_def
      Let_def save_def empty_entry_def has_lower_def has_upper_def sample_enumerators_def
      bound_defs)

text \<open>
  C3. \<open>save\<close> establishes the invariant whatever the entry held, \<open>update\<close> preserves it,
  and so it holds after any sequence of the two operations that starts with \<open>save\<close>.
\<close>

theorem pair_invariant_kept:
  "pair_invariant t (save t e k v b d m g) \<and>
   (pair_invariant t e \<longrightarrow> pair_invariant t (update t e v' b' d' m' g')) \<and>
   pair_invariant t (apply_operations t e (Initialize k v b d m g # xs))"
proof -
  have "apply_operations t e (Initialize k v b d m g # xs)
          = apply_operations t (save t e k v b d m g) xs"
    by (simp add: apply_operations_def)
  then show ?thesis
    by (simp add: save_invariant update_invariant apply_operations_invariant)
qed

text \<open>The theorem at an entry whose UPPER flag is clear and whose upper pair is the sentinels.\<close>

theorem pair_invariant_kept_witness:
  "pair_invariant sample_enumerators lower_50_10 \<and> \<not> has_upper lower_50_10 \<and>
   pair_invariant sample_enumerators (update sample_enumerators lower_50_10 30 BOUND_UPPER 8 2 2)"
proof -
  have h: "pair_invariant sample_enumerators lower_50_10" "\<not> has_upper lower_50_10"
    by (simp_all add: pair_invariant_def lower_50_10_def has_upper_def has_lower_def
        sample_enumerators_def bound_defs)
  from h pair_invariant_kept [of sample_enumerators lower_50_10 0 0 0 0 0 0 30 BOUND_UPPER 8 2 2 "[]"]
  show ?thesis by blast
qed

text \<open>
  C9. \<open>update\<close> with the bound NONE writes the move and the generation; the four value
  and depth fields and the key are as before, and so are the UPPER and LOWER flags. The
  flags byte itself is as before when EXACT is the two flags and nothing more, or when
  the entry is not marked EXACT.
\<close>

theorem merge_none_frame:
  "(let u = update t e v BOUND_NONE d m g in
      valueUpper u = valueUpper e \<and> depthUpper u = depthUpper e \<and>
      valueLower u = valueLower e \<and> depthLower u = depthLower e \<and> key32 u = key32 e \<and>
      move16 u = ucast m \<and> generation8 u = ucast g \<and>
      (exact_has_both t \<longrightarrow> has_upper u = has_upper e \<and> has_lower u = has_lower e) \<and>
      (BOUND_EXACT t = BOUND_UPPER OR BOUND_LOWER \<or> type_of_entry e \<noteq> BOUND_EXACT t
         \<longrightarrow> bound u = bound e))"
proof -
  have "bound (update t e v BOUND_NONE d m g) = bound e"
    if "BOUND_EXACT t = BOUND_UPPER OR BOUND_LOWER \<or> type_of_entry e \<noteq> BOUND_EXACT t"
    using drop_exact_id [of t e] that by (simp add: update_none type_of_entry_def)
  then show ?thesis
    by (simp add: Let_def update_none drop_exact_fields has_upper_bit has_lower_bit
        drop_exact_flags)
qed

text \<open>The theorem for the sample enumerators, on a LOWER-only entry.\<close>

theorem merge_none_frame_witness:
  "exact_has_both sample_enumerators \<and>
   BOUND_EXACT sample_enumerators = BOUND_UPPER OR BOUND_LOWER \<and>
   bound (update sample_enumerators lower_50_10 30 BOUND_NONE 8 7 9) = bound lower_50_10 \<and>
   has_lower (update sample_enumerators lower_50_10 30 BOUND_NONE 8 7 9) = has_lower lower_50_10 \<and>
   valueLower (update sample_enumerators lower_50_10 30 BOUND_NONE 8 7 9) = valueLower lower_50_10 \<and>
   move16 (update sample_enumerators lower_50_10 30 BOUND_NONE 8 7 9) = 7"
proof -
  have x: "BOUND_EXACT sample_enumerators = BOUND_UPPER OR BOUND_LOWER"
    by (simp add: sample_enumerators_def bound_defs)
  show ?thesis
    using merge_none_frame [of sample_enumerators lower_50_10 30 8 7 9] sample_enumerators_both x
    by (simp add: Let_def)
qed

text \<open>
  C4. \<open>save\<close> overwrites the whole entry: its result does not depend on what the
  entry held; the key is the one given, the move, the generation and the flags are the
  arguments (truncated to the width of their fields), each pair whose bit is in the bound
  is (value, depth) and each other pair is the sentinels. A bound that fits the byte
  reads back as it is. With the bound EXACT and a value and a depth that fit 16 bits, both
  flags are set and both pairs read back as (value, depth).
\<close>

theorem save_overwrites:
  "(let s = save t e k v b d m g in
      s = save t e' k v b d m g \<and>
      key32 s = k \<and> move16 s = ucast m \<and> generation8 s = ucast g \<and> bound s = ucast b \<and>
      (b AND BOUND_UPPER \<noteq> 0 \<longrightarrow> valueUpper s = ucast v \<and> depthUpper s = ucast d) \<and>
      (b AND BOUND_UPPER = 0 \<longrightarrow>
         valueUpper s = ucast (VALUE_NONE t) \<and> depthUpper s = ucast (DEPTH_NONE t)) \<and>
      (b AND BOUND_LOWER \<noteq> 0 \<longrightarrow> valueLower s = ucast v \<and> depthLower s = ucast d) \<and>
      (b AND BOUND_LOWER = 0 \<longrightarrow>
         valueLower s = ucast (VALUE_NONE t) \<and> depthLower s = ucast (DEPTH_NONE t)) \<and>
      (unat b < 256 \<longrightarrow> type_of_entry s = b)) \<and>
   (let x = save t e k v (BOUND_EXACT t) d m g in
      exact_has_both t \<and>
      - 32768 \<le> sint v \<and> sint v < 32768 \<and> - 32768 \<le> sint d \<and> sint d < 32768 \<longrightarrow>
      has_upper x \<and> has_lower x \<and> value_upper x = v \<and> depth_upper x = d \<and>
      value_lower x = v \<and> depth x = d)"
  (is "?A \<and> ?B")
proof -
  have A: ?A
    unfolding Let_def
    using save_type [of b t e k v d m g] save_any_entry [of t e k v b d m g e']
    by (simp add: save_fields)
  have B: ?B
    by (simp add: Let_def save_exact_in_range)
  show ?thesis
    by (rule conjI [OF A B])
qed

text \<open>
  The theorem for the bound EXACT with value -70 and depth 12, and for the bound NONE,
  on an entry that held something else.
\<close>

theorem save_overwrites_witness:
  "exact_has_both sample_enumerators \<and>
   BOUND_EXACT sample_enumerators AND BOUND_UPPER \<noteq> 0 \<and>
   BOUND_EXACT sample_enumerators AND BOUND_LOWER \<noteq> 0 \<and>
   unat (BOUND_EXACT sample_enumerators) < 256 \<and>
   save sample_enumerators lower_50_10 0x99 (- 70) (BOUND_EXACT sample_enumerators) 12 3 5
     = save sample_enumerators empty_entry 0x99 (- 70) (BOUND_EXACT sample_enumerators) 12 3 5 \<and>
   key32 (save sample_enumerators lower_50_10 0x99 (- 70) (BOUND_EXACT sample_enumerators) 12 3 5)
     = 0x99 \<and>
   valueUpper (save sample_enumerators lower_50_10 0x99 (- 70) (BOUND_EXACT sample_enumerators) 12 3 5)
     = ucast (- 70 :: Value) \<and>
   valueLower (save sample_enumerators lower_50_10 0x99 (- 70) (BOUND_EXACT sample_enumerators) 12 3 5)
     = ucast (- 70 :: Value) \<and>
   type_of_entry (save sample_enumerators lower_50_10 0x99 (- 70) (BOUND_EXACT sample_enumerators) 12 3 5)
     = BOUND_EXACT sample_enumerators \<and>
   - 32768 \<le> sint (- 70 :: Value) \<and> sint (- 70 :: Value) < 32768 \<and>
   - 32768 \<le> sint (12 :: Depth) \<and> sint (12 :: Depth) < 32768 \<and>
   value_upper (save sample_enumerators lower_50_10 0x99 (- 70) (BOUND_EXACT sample_enumerators) 12 3 5)
     = - 70 \<and>
   value_lower (save sample_enumerators lower_50_10 0x99 (- 70) (BOUND_EXACT sample_enumerators) 12 3 5)
     = - 70 \<and>
   depth (save sample_enumerators lower_50_10 0x99 (- 70) (BOUND_EXACT sample_enumerators) 12 3 5)
     = 12 \<and>
   BOUND_NONE AND BOUND_UPPER = 0 \<and> BOUND_NONE AND BOUND_LOWER = 0 \<and>
   valueUpper (save sample_enumerators lower_50_10 0x99 (- 70) BOUND_NONE 12 3 5)
     = ucast (VALUE_NONE sample_enumerators) \<and>
   depthLower (save sample_enumerators lower_50_10 0x99 (- 70) BOUND_NONE 12 3 5)
     = ucast (DEPTH_NONE sample_enumerators)"
proof -
  note h = sample_enumerators_both
  have b: "BOUND_EXACT sample_enumerators AND BOUND_UPPER \<noteq> 0"
    "BOUND_EXACT sample_enumerators AND BOUND_LOWER \<noteq> 0"
    "unat (BOUND_EXACT sample_enumerators) < 256"
    "BOUND_NONE AND BOUND_UPPER = 0" "BOUND_NONE AND BOUND_LOWER = 0"
    by (simp_all add: sample_enumerators_def bound_defs)
  have r: "- 32768 \<le> sint (- 70 :: Value)" "sint (- 70 :: Value) < 32768"
    "- 32768 \<le> sint (12 :: Depth)" "sint (12 :: Depth) < 32768"
    by simp_all
  show ?thesis
    using save_overwrites [of sample_enumerators lower_50_10 "0x99" "- 70"
        "BOUND_EXACT sample_enumerators" 12 3 5 empty_entry, unfolded Let_def]
      save_overwrites [of sample_enumerators lower_50_10 "0x99" "- 70" BOUND_NONE 12 3 5 empty_entry,
        unfolded Let_def] h b r
    by blast
qed

text \<open>
  C5. After \<open>update\<close> the move and the generation are the arguments (truncated to 16
  and 8 bits, and read back unchanged when they fit), and every bit of the bound argument
  is set in the flags.
\<close>

theorem update_move_generation_bound:
  "(let u = update t e v b d m g in
      move16 u = ucast m \<and> generation8 u = ucast g \<and> bound u AND ucast b = ucast b \<and>
      (b AND BOUND_UPPER \<noteq> 0 \<longrightarrow> has_upper u) \<and>
      (b AND BOUND_LOWER \<noteq> 0 \<longrightarrow> has_lower u) \<and>
      (unat m < 65536 \<longrightarrow> move u = m) \<and>
      (unat g < 256 \<longrightarrow> generation u = g))"
proof -
  note b = update_bound_or [of t e v b d m g]
  have u: "b AND BOUND_UPPER \<noteq> 0 \<Longrightarrow> has_upper (update t e v b d m g)"
    by (simp add: has_upper_bit b bit_or_ucast) (simp add: BOUND_UPPER_def and_1_iff_bit)
  have l: "b AND BOUND_LOWER \<noteq> 0 \<Longrightarrow> has_lower (update t e v b d m g)"
    by (simp add: has_lower_bit b bit_or_ucast) (simp add: BOUND_LOWER_def and_2_iff_bit)
  have i: "bound (update t e v b d m g) AND ucast b = ucast b"
    by (simp add: b)
  show ?thesis
    by (simp add: Let_def update_move_generation u l i move_def generation_def
        ucast_ucast_16 ucast_ucast_8)
qed

text \<open>The theorem for a bound with both flags, the move 7 and the generation 200.\<close>

theorem update_move_generation_bound_witness:
  "3 AND BOUND_UPPER \<noteq> 0 \<and> 3 AND BOUND_LOWER \<noteq> 0 \<and>
   unat (7 :: Move) < 65536 \<and> unat (200 :: 32 word) < 256 \<and>
   has_upper (update sample_enumerators lower_50_10 30 3 8 7 200) \<and>
   has_lower (update sample_enumerators lower_50_10 30 3 8 7 200) \<and>
   move (update sample_enumerators lower_50_10 30 3 8 7 200) = 7 \<and>
   generation (update sample_enumerators lower_50_10 30 3 8 7 200) = 200"
proof -
  have b: "3 AND BOUND_UPPER \<noteq> 0" "3 AND BOUND_LOWER \<noteq> 0"
    by (simp_all add: bound_defs)
  show ?thesis
    using update_move_generation_bound [of sample_enumerators lower_50_10 30 3 8 7 200]
    by (simp add: Let_def b)
qed

text \<open>
  C6. \<open>set_generation\<close> writes the generation and no other field; an 8-bit generation
  passed as \<open>int\<close> is stored as it is. \<open>refresh\<close> stores the generation of the table,
  so the distance of the entry from the current generation is 0 afterwards, and the
  other fields are as before.
\<close>

theorem touch_only_generation:
  "(let s = set_generation e g in
      generation8 s = ucast g \<and> key32 s = key32 e \<and> move16 s = move16 e \<and>
      bound s = bound e \<and> valueUpper s = valueUpper e \<and> depthUpper s = depthUpper e \<and>
      valueLower s = valueLower e \<and> depthLower s = depthLower e) \<and>
   generation8 (set_generation e (ucast (c :: 8 word))) = c \<and>
   (let r = refresh tt e in
      generation8 r = generation_tt tt \<and> generation_distance (generation_tt tt) r = 0 \<and>
      key32 r = key32 e \<and> move16 r = move16 e \<and>
      bound r = bound e \<and> valueUpper r = valueUpper e \<and> depthUpper r = depthUpper e \<and>
      valueLower r = valueLower e \<and> depthLower r = depthLower e)"
  by (simp add: Let_def set_generation_def refresh_def generation_distance_def ucast_8_32_8)

section \<open>Claims about the table\<close>

text \<open>
  C7. For a table whose size is a power of two, \<open>first_entry\<close> maps a key to the index
  made of the key's low-order bits (as many as the size has index bits, and at most 32):
  the index is below the size, for a size up to \<open>2 ^ 32\<close> it is the key masked with the
  size minus one, and it is the same in every table of that size.
\<close>

theorem first_entry_low_bits:
  assumes "size_tt tt = 2 ^ n" and "n < 64"
  shows "first_entry tt k = take_bit (min n 32) k \<and>
         first_entry tt k < size_tt tt \<and>
         (n \<le> 32 \<longrightarrow> first_entry tt k = k AND (size_tt tt - 1)) \<and>
         (size_tt tt' = size_tt tt \<longrightarrow> first_entry tt' k = first_entry tt k)"
proof -
  have "size_tt tt' = size_tt tt \<Longrightarrow> first_entry tt' k = first_entry tt k"
    by (simp add: first_entry_def)
  then show ?thesis
    using assms first_entry_take_bit [of tt n k] first_entry_in_range [of tt n k]
      first_entry_mask [of tt n k]
    by blast
qed

text \<open>The theorem for the table of four clusters and the key 7.\<close>

theorem first_entry_low_bits_witness:
  "size_tt table_4 = 2 ^ 2 \<and> (2 :: nat) < 64 \<and> (2 :: nat) \<le> 32 \<and>
   size_tt (table_4\<lparr> generation_tt := 9 \<rparr>) = size_tt table_4 \<and>
   first_entry table_4 7 = 3 \<and> first_entry table_4 7 < size_tt table_4 \<and>
   first_entry table_4 7 = 7 AND (size_tt table_4 - 1) \<and>
   first_entry (table_4\<lparr> generation_tt := 9 \<rparr>) 7 = 3"
proof -
  have s: "size_tt table_4 = 2 ^ 2"
    by (simp add: table_4_def)
  have n: "(2 :: nat) < 64"
    by simp
  show ?thesis
    using first_entry_low_bits [OF s n, of 7 "table_4\<lparr> generation_tt := 9 \<rparr>"] s
    by simp
qed

text \<open>
  C10. Two keys that agree modulo \<open>2 ^ 32\<close> are mapped to the same cluster, whatever
  the size of the table.
\<close>

theorem first_entry_low_32:
  "unat k1 mod 2 ^ 32 = unat k2 mod 2 ^ 32 \<Longrightarrow> first_entry tt k1 = first_entry tt k2"
  using ucast_congruent [of k1 k2] by (simp add: first_entry_def)

text \<open>
  The theorem in a table of \<open>2 ^ 33\<close> clusters, for the keys \<open>2 ^ 32 + 5\<close> and 5: they
  share a cluster although they differ in a bit that the mask of this size keeps.
\<close>

theorem first_entry_low_32_witness:
  "unat (2 ^ 32 + 5 :: Key) mod 2 ^ 32 = unat (5 :: Key) mod 2 ^ 32 \<and>
   first_entry table_2_33 (2 ^ 32 + 5) = first_entry table_2_33 5 \<and>
   (2 ^ 32 + 5) AND (size_tt table_2_33 - 1) \<noteq> 5 AND (size_tt table_2_33 - 1)"
proof -
  have h: "unat (2 ^ 32 + 5 :: Key) mod 2 ^ 32 = unat (5 :: Key) mod 2 ^ 32"
    by simp
  have d: "(2 ^ 32 + 5) AND (size_tt table_2_33 - 1) \<noteq> 5 AND (size_tt table_2_33 - 1)"
    by (simp add: table_2_33_def)
  from first_entry_low_32 [OF h, of table_2_33] h d show ?thesis
    by blast
qed

text \<open>
  C8, on the model of \<open>store\<close>. On the cluster of the key: when some record has the
  fingerprint of the key, the first such record is updated in place and keeps its key;
  else, when some record has the fingerprint zero, the first such record is written by
  \<open>save\<close>; else the record written by \<open>save\<close> has the highest eviction score and,
  among the records with that score, the lowest depth. No other record changes. With
  positive coefficients, the one of the generation distance the greater, an older
  record of the same depth and a shallower record of the same generation score higher,
  and one more epoch outweighs one more ply. At table level the cluster written is the
  one \<open>first_entry\<close> gives and the other clusters are untouched.
\<close>

theorem store_priority:
  "(let c' = store_cluster t wg wd cur c k v b d m in
      ((\<exists>i<length c. key (c ! i) = k) \<longrightarrow>
         (\<exists>i<length c. key (c ! i) = k \<and> (\<forall>j<i. key (c ! j) \<noteq> k) \<and>
            c' = c[i := update t (c ! i) v b d m (ucast cur)] \<and> key (c' ! i) = k)) \<and>
      ((\<forall>i<length c. key (c ! i) \<noteq> k) \<and> (\<exists>i<length c. key (c ! i) = 0) \<longrightarrow>
         (\<exists>i<length c. key (c ! i) = 0 \<and> (\<forall>j<i. key (c ! j) \<noteq> 0) \<and>
            c' = c[i := save t (c ! i) k v b d m (ucast cur)])) \<and>
      ((\<forall>i<length c. key (c ! i) \<noteq> k \<and> key (c ! i) \<noteq> 0) \<and> c \<noteq> [] \<longrightarrow>
         (\<exists>i<length c. c' = c[i := save t (c ! i) k v b d m (ucast cur)] \<and>
            (\<forall>j<length c.
               eviction_score wg wd cur (c ! j) \<le> eviction_score wg wd cur (c ! i) \<and>
               (eviction_score wg wd cur (c ! j) = eviction_score wg wd cur (c ! i)
                  \<longrightarrow> sint (depth (c ! i)) \<le> sint (depth (c ! j))))))) \<and>
   (0 < wd \<and> wd < wg \<longrightarrow>
      (uint (generation_distance cur x) > uint (generation_distance cur y) \<and> depth x = depth y
         \<longrightarrow> eviction_score wg wd cur x > eviction_score wg wd cur y) \<and>
      (generation_distance cur x = generation_distance cur y \<and> sint (depth x) < sint (depth y)
         \<longrightarrow> eviction_score wg wd cur x > eviction_score wg wd cur y) \<and>
      (uint (generation_distance cur x) = uint (generation_distance cur y) + 1 \<and>
       sint (depth x) = sint (depth y) + 1
         \<longrightarrow> eviction_score wg wd cur x > eviction_score wg wd cur y)) \<and>
   (let i = unat (first_entry tt posKey); t' = store t wg wd tt posKey v b d m in
      i < length (entries tt) \<longrightarrow>
        data (entries t' ! i)
          = store_cluster t wg wd (generation_tt tt) (data (entries tt ! i)) (ucast posKey) v b d m \<and>
        (\<forall>j<length (entries tt). j \<noteq> i \<longrightarrow> entries t' ! j = entries tt ! j) \<and>
        length (entries t') = length (entries tt))"
  (is "?C \<and> ?S \<and> ?T")
proof -
  have C: ?C
    unfolding Let_def
  proof (intro conjI impI)
    assume "\<exists>i<length c. key (c ! i) = k"
    then show "\<exists>i<length c. key (c ! i) = k \<and> (\<forall>j<i. key (c ! j) \<noteq> k) \<and>
        store_cluster t wg wd cur c k v b d m = c[i := update t (c ! i) v b d m (ucast cur)] \<and>
        key (store_cluster t wg wd cur c k v b d m ! i) = k"
      by (rule store_cluster_match)
  next
    assume "(\<forall>i<length c. key (c ! i) \<noteq> k) \<and> (\<exists>i<length c. key (c ! i) = 0)"
    then have "\<forall>i<length c. key (c ! i) \<noteq> k" and "\<exists>i<length c. key (c ! i) = 0"
      by simp_all
    then show "\<exists>i<length c. key (c ! i) = 0 \<and> (\<forall>j<i. key (c ! j) \<noteq> 0) \<and>
        store_cluster t wg wd cur c k v b d m = c[i := save t (c ! i) k v b d m (ucast cur)]"
      by (rule store_cluster_empty)
  next
    assume "(\<forall>i<length c. key (c ! i) \<noteq> k \<and> key (c ! i) \<noteq> 0) \<and> c \<noteq> []"
    then have "\<forall>i<length c. key (c ! i) \<noteq> k \<and> key (c ! i) \<noteq> 0" and "c \<noteq> []"
      by simp_all
    then show "\<exists>i<length c.
        store_cluster t wg wd cur c k v b d m = c[i := save t (c ! i) k v b d m (ucast cur)] \<and>
        (\<forall>j<length c.
           eviction_score wg wd cur (c ! j) \<le> eviction_score wg wd cur (c ! i) \<and>
           (eviction_score wg wd cur (c ! j) = eviction_score wg wd cur (c ! i)
              \<longrightarrow> sint (depth (c ! i)) \<le> sint (depth (c ! j))))"
      by (rule store_cluster_victim)
  qed
  have S: ?S
    using eviction_score_order [where wd = wd and wg = wg and cur = cur and x = x and y = y]
    by blast
  have T: ?T
    unfolding Let_def
    using store_entries [where tt = tt and posKey = posKey and t = t and wg = wg
        and wd = wd and v = v and b = b and d = d and m = m]
    by blast
  show ?thesis
    by (rule conjI [OF C conjI [OF S T]])
qed

text \<open>
  The theorem on the full cluster with the coefficients 512 and 1: the key 12 is merged
  into its record; the key 99 evicts the record of generation 3, the oldest, although it
  is the deepest; and a store into the zeroed table writes the first record of the
  cluster of the key.
\<close>

theorem store_priority_witness:
  "store_cluster sample_enumerators 512 1 5 full_cluster 12 30 BOUND_UPPER 8 2
     = full_cluster[1 := update sample_enumerators (full_cluster ! 1) 30 BOUND_UPPER 8 2 (ucast (5 :: 8 word))] \<and>
   store_cluster sample_enumerators 512 1 5 full_cluster 99 30 BOUND_UPPER 8 2
     = full_cluster[1 := save sample_enumerators (full_cluster ! 1) 99 30 BOUND_UPPER 8 2 (ucast (5 :: 8 word))] \<and>
   (0 :: int) < 1 \<and> (1 :: int) < 512 \<and>
   uint (generation_distance 5 (full_cluster ! 3)) = uint (generation_distance 5 (full_cluster ! 2)) + 1 \<and>
   sint (depth (full_cluster ! 3)) = sint (depth (full_cluster ! 2)) + 1 \<and>
   eviction_score 512 1 5 (full_cluster ! 3) > eviction_score 512 1 5 (full_cluster ! 2) \<and>
   unat (first_entry table_4 7) < length (entries table_4) \<and>
   data (entries (store sample_enumerators 512 1 table_4 7 30 BOUND_UPPER 8 2) ! 3)
     = zero_cluster[0 := save sample_enumerators (zero_cluster ! 0) 7 30 BOUND_UPPER 8 2 (ucast (0 :: 8 word))]"
proof -
  note f = full_cluster_facts
  note match = store_priority [of sample_enumerators 512 1 5 full_cluster 12 30 BOUND_UPPER 8 2,
      unfolded Let_def, THEN conjunct1, THEN conjunct1, THEN mp]
  note evict = store_priority [of sample_enumerators 512 1 5 full_cluster 99 30 BOUND_UPPER 8 2,
      unfolded Let_def, THEN conjunct1, THEN conjunct2, THEN conjunct2, THEN mp]
  note order = store_priority [where wg = 512 and wd = 1 and cur = 5
      and x = "full_cluster ! 3" and y = "full_cluster ! 2",
      unfolded Let_def, THEN conjunct2, THEN conjunct1, THEN mp, THEN conjunct2, THEN conjunct2,
      THEN mp]
  have "\<exists>i<length full_cluster. key (full_cluster ! i) = 12"
    using f by (intro exI [of _ 1]) simp
  from match [OF this]
  obtain i where i: "i < length full_cluster" "key (full_cluster ! i) = 12"
    "store_cluster sample_enumerators 512 1 5 full_cluster 12 30 BOUND_UPPER 8 2
       = full_cluster[i := update sample_enumerators (full_cluster ! i) 30 BOUND_UPPER 8 2 (ucast (5 :: 8 word))]"
    by blast
  from i(1) have "i = 0 \<or> i = 1 \<or> i = 2 \<or> i = 3"
    using f(1) less_4_cases by simp
  with i(2) have "i = 1"
    using f by auto
  with i(3) have A: "store_cluster sample_enumerators 512 1 5 full_cluster 12 30 BOUND_UPPER 8 2
     = full_cluster[1 := update sample_enumerators (full_cluster ! 1) 30 BOUND_UPPER 8 2 (ucast (5 :: 8 word))]"
    by simp
  have "\<forall>i<length full_cluster. key (full_cluster ! i) \<noteq> 99 \<and> key (full_cluster ! i) \<noteq> 0"
  proof (intro allI impI)
    fix l
    assume "l < length full_cluster"
    then have "l = 0 \<or> l = 1 \<or> l = 2 \<or> l = 3"
      using f(1) less_4_cases by simp
    then show "key (full_cluster ! l) \<noteq> 99 \<and> key (full_cluster ! l) \<noteq> 0"
      using f by (elim disjE) simp_all
  qed
  moreover have "full_cluster \<noteq> []"
    using f(1) by auto
  ultimately have "(\<forall>i<length full_cluster. key (full_cluster ! i) \<noteq> 99 \<and> key (full_cluster ! i) \<noteq> 0)
      \<and> full_cluster \<noteq> []"
    by (rule conjI)
  from evict [OF this]
  obtain j where j: "j < length full_cluster"
    "store_cluster sample_enumerators 512 1 5 full_cluster 99 30 BOUND_UPPER 8 2
       = full_cluster[j := save sample_enumerators (full_cluster ! j) 99 30 BOUND_UPPER 8 2 (ucast (5 :: 8 word))]"
    "\<forall>l<length full_cluster.
       eviction_score 512 1 5 (full_cluster ! l) \<le> eviction_score 512 1 5 (full_cluster ! j)"
    by blast
  from j(3) have "eviction_score 512 1 5 (full_cluster ! 1) \<le> eviction_score 512 1 5 (full_cluster ! j)"
    using f(1) by simp
  moreover from j(1) have "j = 0 \<or> j = 1 \<or> j = 2 \<or> j = 3"
    using f(1) less_4_cases by simp
  ultimately have "j = 1"
    using f by auto
  with j(2) have B: "store_cluster sample_enumerators 512 1 5 full_cluster 99 30 BOUND_UPPER 8 2
     = full_cluster[1 := save sample_enumerators (full_cluster ! 1) 99 30 BOUND_UPPER 8 2 (ucast (5 :: 8 word))]"
    by simp
  have w: "(0 :: int) < 1 \<and> (1 :: int) < 512"
    by simp
  have g: "uint (generation_distance 5 (full_cluster ! 3))
             = uint (generation_distance 5 (full_cluster ! 2)) + 1 \<and>
           sint (depth (full_cluster ! 3)) = sint (depth (full_cluster ! 2)) + 1"
    by (simp add: full_cluster_def slot_def generation_distance_def depth_def)
  note t = table_4_facts
  note z = zero_cluster_facts
  note empty = store_priority [of sample_enumerators 512 1 0 zero_cluster 7 30 BOUND_UPPER 8 2,
      unfolded Let_def, THEN conjunct1, THEN conjunct2, THEN conjunct1, THEN mp]
  note table = store_priority [where tt = table_4 and posKey = 7 and t = sample_enumerators
      and wg = 512 and wd = 1 and v = 30 and b = BOUND_UPPER and d = 8 and m = 2,
      unfolded Let_def, THEN conjunct2, THEN conjunct2, THEN mp, THEN conjunct1]
  have r: "unat (first_entry table_4 7) < length (entries table_4)"
    using t by simp
  have "\<forall>i<length zero_cluster. key (zero_cluster ! i) \<noteq> 7"
  proof (intro allI impI)
    fix l
    assume "l < length zero_cluster"
    then have "l = 0 \<or> l = 1 \<or> l = 2 \<or> l = 3"
      using z(1) less_4_cases by simp
    then show "key (zero_cluster ! l) \<noteq> 7"
      using z by (elim disjE) simp_all
  qed
  moreover have "\<exists>i<length zero_cluster. key (zero_cluster ! i) = 0"
    using z by (intro exI [of _ 0]) simp
  ultimately have "(\<forall>i<length zero_cluster. key (zero_cluster ! i) \<noteq> 7) \<and>
      (\<exists>i<length zero_cluster. key (zero_cluster ! i) = 0)"
    by (rule conjI)
  from empty [OF this]
  obtain n where n: "\<forall>j<n. key (zero_cluster ! j) \<noteq> 0"
    "store_cluster sample_enumerators 512 1 0 zero_cluster 7 30 BOUND_UPPER 8 2
       = zero_cluster[n := save sample_enumerators (zero_cluster ! n) 7 30 BOUND_UPPER 8 2 (ucast (0 :: 8 word))]"
    by blast
  from n(1) z(2) have "n = 0"
    by (cases n) auto
  with n(2) have E: "store_cluster sample_enumerators 512 1 0 zero_cluster 7 30 BOUND_UPPER 8 2
       = zero_cluster[0 := save sample_enumerators (zero_cluster ! 0) 7 30 BOUND_UPPER 8 2 (ucast (0 :: 8 word))]"
    by simp
  from table [OF r] have D: "data (entries (store sample_enumerators 512 1 table_4 7 30 BOUND_UPPER 8 2) ! 3)
      = store_cluster sample_enumerators 512 1 0 zero_cluster 7 30 BOUND_UPPER 8 2"
    using t by simp
  from D E have F: "data (entries (store sample_enumerators 512 1 table_4 7 30 BOUND_UPPER 8 2) ! 3)
     = zero_cluster[0 := save sample_enumerators (zero_cluster ! 0) 7 30 BOUND_UPPER 8 2 (ucast (0 :: 8 word))]"
    by simp
  from A B w g order [OF w g] r F show ?thesis
    by blast
qed

end
